theory Spec2Isabelle
  imports Main "HOL-Library.AList"
begin

section \<open>The type-hierarchy registry of \<^verbatim>\<open>compiler/typesystem.py\<close>\<close>

subsection \<open>Value types\<close>

text \<open>
  Modelled from the spec: the module \<^verbatim>\<open>compiler/types.py\<close> that declares the value
  type classes (\<^verbatim>\<open>ObjectType\<close>, \<^verbatim>\<open>IntType\<close>, \<^verbatim>\<open>ClassValueType\<close>, \<^verbatim>\<open>FuncType\<close>, ...) is
  not among the sources. The specification describes the value type as a closed tagged
  variant: Object, Int, Bool, Str, None, Empty, a class reference carrying a class name,
  and a function type with an ordered parameter sequence and a return type. Python's
  \<^verbatim>\<open>==\<close> on these values is equality of variants, \<^verbatim>\<open>isinstance(a, ClassValueType)\<close>
  holds for the class-reference variant only, and only that variant has the field
  \<^verbatim>\<open>className\<close>.
\<close>

datatype ValueType =
    ObjectType
  | IntType
  | BoolType
  | StrType
  | NoneType
  | EmptyType
  | ClassValueType string
  | FuncType "ValueType list" ValueType

subsection \<open>Dictionaries\<close>

text \<open>
  A Python dictionary is an association list in insertion order. Storing under a key
  that is present replaces the value in place, storing under a new key appends the
  entry: this is \<^const>\<open>AList.update\<close>. The tables of a class are
  \<^verbatim>\<open>defaultdict(lambda: None)\<close>: a key may be present and mapped to Python's
  \<^verbatim>\<open>None\<close>, so the stored values are options, \<open>None\<close> being that null sentinel.
\<close>

type_synonym 'v pydict = "(string \<times> 'v) list"

text \<open>\<^verbatim>\<open>k in d\<close>; the test stores nothing, also in a \<^verbatim>\<open>defaultdict\<close>.\<close>

definition dict_in :: "string \<Rightarrow> 'v pydict \<Rightarrow> bool" where
  "dict_in k d = (k \<in> set (map fst d))"

text \<open>\<^verbatim>\<open>d[k]\<close> read as a value; on a missing key the default \<^verbatim>\<open>None\<close> is what is read.\<close>

definition dd_get :: "'v option pydict \<Rightarrow> string \<Rightarrow> 'v option" where
  "dd_get d k = (case map_of d k of None \<Rightarrow> None | Some v \<Rightarrow> v)"

subsection \<open>Class records and the registry\<close>

text \<open>
  \<^verbatim>\<open>class ClassInfo\<close>. The initial-value literals of attributes come from the syntax
  tree and are left as a type parameter \<open>'i\<close>.
\<close>

record 'i ClassInfo =
  name :: string
  superclass :: "string option"
  attrs :: "(ValueType \<times> 'i) option pydict"
  methods :: "ValueType option pydict"
  orderedAttrs :: "string list"

definition newClassInfo :: "string \<Rightarrow> string option \<Rightarrow> 'i ClassInfo" where
  "newClassInfo n s =
     \<lparr>name = n, superclass = s, attrs = [], methods = [], orderedAttrs = []\<rparr>"

text \<open>
  \<^verbatim>\<open>TypeSystem.classes\<close> is a \<^verbatim>\<open>defaultdict(lambda: None)\<close> from class names to
  records. It is never iterated, so it is a map; a key mapped to the null sentinel is
  \<open>Some None\<close>, an absent key is \<open>None\<close>.
\<close>

type_synonym 'i classes = "string \<rightharpoonup> 'i ClassInfo option"

datatype error = AttributeError | TypeError

text \<open>
  Every operation takes the registry and returns its outcome together with the registry
  it leaves behind: \<open>Inl\<close> is a raised exception, \<open>Inr\<close> a returned value. An
  operation that does not return at all has the value \<open>None\<close>.
\<close>

type_synonym ('a, 'i) outcome = "((error + 'a) \<times> 'i classes) option"

text \<open>
  \<^verbatim>\<open>self.classes[k]\<close>: reading a missing key stores the null sentinel under it and
  returns the sentinel.
\<close>

definition classes_getitem :: "'i classes \<Rightarrow> string \<Rightarrow> 'i ClassInfo option \<times> 'i classes" where
  "classes_getitem cs k =
     (case cs k of
        Some v \<Rightarrow> (v, cs)
      | None \<Rightarrow> (None, cs(k \<mapsto> None)))"

text \<open>\<^verbatim>\<open>TypeSystem.__init__\<close>\<close>

definition init_sig :: ValueType where
  "init_sig = FuncType [ObjectType] NoneType"

definition objectInfo :: "'i ClassInfo" where
  "objectInfo = (newClassInfo ''object'' None)\<lparr>methods := [(''__init__'', Some init_sig)]\<rparr>"

definition intInfo :: "'i ClassInfo" where
  "intInfo = (newClassInfo ''int'' (Some ''object''))\<lparr>methods := [(''__init__'', Some init_sig)]\<rparr>"

definition boolInfo :: "'i ClassInfo" where
  "boolInfo = (newClassInfo ''bool'' (Some ''object''))\<lparr>methods := [(''__init__'', Some init_sig)]\<rparr>"

definition strInfo :: "'i ClassInfo" where
  "strInfo = (newClassInfo ''str'' (Some ''object''))\<lparr>methods := [(''__init__'', Some init_sig)]\<rparr>"

definition init_classes :: "'i classes" where
  "init_classes =
     Map.empty
       (''object'' \<mapsto> Some objectInfo,
        ''int'' \<mapsto> Some intInfo,
        ''bool'' \<mapsto> Some boolInfo,
        ''str'' \<mapsto> Some strInfo,
        ''<None>'' \<mapsto> Some (newClassInfo ''<None>'' (Some ''object'')),
        ''<Empty>'' \<mapsto> Some (newClassInfo ''<Empty>'' (Some ''object'')))"

subsection \<open>Resolution queries\<close>

text \<open>
  A successful read of \<^verbatim>\<open>self.classes[className]\<close> leaves the dictionary as it is, so
  the repeated reads inside one call are one read in the model. A read of the null
  sentinel is followed by an attribute access on it, which raises
  \<^verbatim>\<open>AttributeError\<close>. The interpreter's stack is taken as unbounded.
\<close>

partial_function (option) getMethodHelper ::
  "'i classes \<Rightarrow> string \<Rightarrow> string \<Rightarrow> (ValueType option \<times> string option, 'i) outcome"
where
  "getMethodHelper cs className methodName =
     (case classes_getitem cs className of
        (None, cs') \<Rightarrow> Some (Inl AttributeError, cs')
      | (Some ci, cs') \<Rightarrow>
          if \<not> dict_in methodName (methods ci) then
            (case superclass ci of
               None \<Rightarrow> Some (Inr (None, None), cs')
             | Some sc \<Rightarrow> getMethodHelper cs' sc methodName)
          else Some (Inr (dd_get (methods ci) methodName, Some className), cs'))"

definition getMethod :: "'i classes \<Rightarrow> string \<Rightarrow> string \<Rightarrow> (ValueType option, 'i) outcome" where
  "getMethod cs className methodName =
     map_option (\<lambda>(r, cs'). (map_sum id fst r, cs')) (getMethodHelper cs className methodName)"

definition getMethodDefClass :: "'i classes \<Rightarrow> string \<Rightarrow> string \<Rightarrow> (string option, 'i) outcome" where
  "getMethodDefClass cs className methodName =
     map_option (\<lambda>(r, cs'). (map_sum id snd r, cs')) (getMethodHelper cs className methodName)"

text \<open>
  \<^verbatim>\<open>getAttrHelper\<close> returns the pair \<^verbatim>\<open>(None, None)\<close> at the root, and otherwise the
  stored entry as it is, which is a pair or the null sentinel (the outer \<open>None\<close> of the
  result).
\<close>

partial_function (option) getAttrHelper ::
  "'i classes \<Rightarrow> string \<Rightarrow> string \<Rightarrow> ((ValueType option \<times> 'i option) option, 'i) outcome"
where
  "getAttrHelper cs className attrName =
     (case classes_getitem cs className of
        (None, cs') \<Rightarrow> Some (Inl AttributeError, cs')
      | (Some ci, cs') \<Rightarrow>
          if \<not> dict_in attrName (attrs ci) then
            (case superclass ci of
               None \<Rightarrow> Some (Inr (Some (None, None)), cs')
             | Some sc \<Rightarrow> getAttrHelper cs' sc attrName)
          else Some (Inr (map_option (\<lambda>(t, i). (Some t, Some i)) (dd_get (attrs ci) attrName)), cs'))"

text \<open>Subscripting the null sentinel raises \<^verbatim>\<open>TypeError\<close>.\<close>

definition subscript :: "('a \<times> 'b) option \<Rightarrow> ('a \<times> 'b \<Rightarrow> 'c) \<Rightarrow> error + 'c" where
  "subscript v sel = (case v of None \<Rightarrow> Inl TypeError | Some p \<Rightarrow> Inr (sel p))"

definition getAttr :: "'i classes \<Rightarrow> string \<Rightarrow> string \<Rightarrow> (ValueType option, 'i) outcome" where
  "getAttr cs className attrName =
     map_option (\<lambda>(r, cs'). (case r of Inl e \<Rightarrow> Inl e | Inr v \<Rightarrow> subscript v fst, cs'))
       (getAttrHelper cs className attrName)"

definition getAttrInit :: "'i classes \<Rightarrow> string \<Rightarrow> string \<Rightarrow> ('i option, 'i) outcome" where
  "getAttrInit cs className attrName =
     map_option (\<lambda>(r, cs'). (case r of Inl e \<Rightarrow> Inl e | Inr v \<Rightarrow> subscript v snd, cs'))
       (getAttrHelper cs className attrName)"

partial_function (option) getAttrOrMethod ::
  "'i classes \<Rightarrow> string \<Rightarrow> string \<Rightarrow> (ValueType option, 'i) outcome"
where
  "getAttrOrMethod cs className nm =
     (case classes_getitem cs className of
        (None, cs') \<Rightarrow> Some (Inl AttributeError, cs')
      | (Some ci, cs') \<Rightarrow>
          if dict_in nm (methods ci) then Some (Inr (dd_get (methods ci) nm), cs')
          else if dict_in nm (attrs ci) then
            Some (map_sum id Some (subscript (dd_get (attrs ci) nm) fst), cs')
          else
            (case superclass ci of
               None \<Rightarrow> Some (Inr None, cs')
             | Some sc \<Rightarrow> getAttrOrMethod cs' sc nm))"

text \<open>\<^verbatim>\<open>classExists\<close>: the test \<^verbatim>\<open>in\<close> does not store anything.\<close>

definition classExists :: "'i classes \<Rightarrow> string \<Rightarrow> bool" where
  "classExists cs className = (cs className \<noteq> None)"

subsection \<open>Subtyping and assignability\<close>

text \<open>The \<^verbatim>\<open>while\<close> loop of \<^verbatim>\<open>isSubClass\<close>, on the loop variable \<^verbatim>\<open>curr\<close> (here \<open>cur\<close>).\<close>

partial_function (option) isSubClass_loop ::
  "'i classes \<Rightarrow> string option \<Rightarrow> string \<Rightarrow> (bool, 'i) outcome"
where
  "isSubClass_loop cs cur b =
     (case cur of
        None \<Rightarrow> Some (Inr False, cs)
      | Some c \<Rightarrow>
          if c = b then Some (Inr True, cs)
          else
            (case classes_getitem cs c of
               (None, cs') \<Rightarrow> Some (Inl AttributeError, cs')
             | (Some ci, cs') \<Rightarrow> isSubClass_loop cs' (superclass ci) b))"

definition isSubClass :: "'i classes \<Rightarrow> string \<Rightarrow> string \<Rightarrow> (bool, 'i) outcome" where
  "isSubClass cs a b = isSubClass_loop cs (Some a) b"

definition isSubtype :: "'i classes \<Rightarrow> ValueType \<Rightarrow> ValueType \<Rightarrow> (bool, 'i) outcome" where
  "isSubtype cs a b =
     (if b = ObjectType then Some (Inr True, cs)
      else
        (case (a, b) of
           (ClassValueType an, ClassValueType bn) \<Rightarrow> isSubClass cs an bn
         | _ \<Rightarrow> Some (Inr (a = b), cs)))"

text \<open>
  Sequencing of two operations: an operation that does not return, or raises, ends the
  computation; otherwise the next one runs on the value and the registry left behind.
\<close>

definition and_then ::
  "('a, 'i) outcome \<Rightarrow> ('a \<Rightarrow> 'i classes \<Rightarrow> ('b, 'i) outcome) \<Rightarrow> ('b, 'i) outcome"
where
  "and_then m f =
     Option.bind m (\<lambda>(r, cs). case r of Inl e \<Rightarrow> Some (Inl e, cs) | Inr v \<Rightarrow> f v cs)"

definition canAssign :: "'i classes \<Rightarrow> ValueType \<Rightarrow> ValueType \<Rightarrow> (bool, 'i) outcome" where
  "canAssign cs a b =
     and_then (isSubtype cs a b) (\<lambda>r cs'.
       if r then Some (Inr True, cs')
       else if a = NoneType \<and> b \<notin> set [IntType, StrType, BoolType] then Some (Inr True, cs')
       else Some (Inr False, cs'))"

subsection \<open>Join\<close>

text \<open>
  One \<^verbatim>\<open>while\<close> loop of \<^verbatim>\<open>join\<close>: it walks from the class \<open>a\<close> to the root and appends
  every superclass name to the list \<open>anc\<close>.
\<close>

partial_function (option) join_ancestors ::
  "'i classes \<Rightarrow> string \<Rightarrow> string list \<Rightarrow> (string list, 'i) outcome"
where
  "join_ancestors cs a anc =
     (case classes_getitem cs a of
        (None, cs') \<Rightarrow> Some (Inl AttributeError, cs')
      | (Some ci, cs') \<Rightarrow>
          (case superclass ci of
             None \<Rightarrow> Some (Inr anc, cs')
           | Some sc \<Rightarrow> join_ancestors cs' sc (anc @ [sc])))"

text \<open>
  \<^verbatim>\<open>join\<close> returns a value type, or at line 141 the raw entry of the registry
  (\<^verbatim>\<open>self.classes[...]\<close>, a record or the null sentinel).
\<close>

datatype 'i join_result = JType ValueType | JClass "'i ClassInfo option"

text \<open>
  The \<^verbatim>\<open>for\<close> loop of \<^verbatim>\<open>join\<close> over the indices \<open>is\<close>. The index \<^verbatim>\<open>i - 1\<close> is
  \<^verbatim>\<open>-1\<close> when \<^verbatim>\<open>i\<close> is 0, which in Python is the last element.
\<close>

fun join_compare ::
  "'i classes \<Rightarrow> string list \<Rightarrow> string list \<Rightarrow> nat list \<Rightarrow> 'i join_result \<times> 'i classes"
where
  "join_compare cs aAncestors bAncestors [] = (JType ObjectType, cs)"
| "join_compare cs aAncestors bAncestors (i # is) =
     (if aAncestors ! i \<noteq> bAncestors ! i then
        (case classes_getitem cs (if i = 0 then last aAncestors else aAncestors ! (i - 1)) of
           (v, cs') \<Rightarrow> (JClass v, cs'))
      else join_compare cs aAncestors bAncestors is)"

text \<open>
  \<^verbatim>\<open>join\<close>. Reading \<^verbatim>\<open>className\<close> of a value that is not a class reference raises
  \<^verbatim>\<open>AttributeError\<close>. The second walk appends to \<^verbatim>\<open>aAncestors\<close>, as line 134 does;
  \<^verbatim>\<open>bAncestors\<close> stays the empty list it was created as.
\<close>

definition join :: "'i classes \<Rightarrow> ValueType \<Rightarrow> ValueType \<Rightarrow> ('i join_result, 'i) outcome" where
  "join cs a b =
     and_then (canAssign cs a b) (\<lambda>r1 cs1.
       if r1 then Some (Inr (JType b), cs1)
       else
         and_then (canAssign cs1 b a) (\<lambda>r2 cs2.
           if r2 then Some (Inr (JType a), cs2)
           else
             (case (a, b) of
                (ClassValueType an, ClassValueType bn) \<Rightarrow>
                  and_then (join_ancestors cs2 an []) (\<lambda>aAncestors cs3.
                    and_then (join_ancestors cs3 bn aAncestors) (\<lambda>aAncestors cs4.
                      let bAncestors = [];
                          aAncestors = rev aAncestors;
                          bAncestors = rev bAncestors
                      in (case join_compare cs4 aAncestors bAncestors
                                 [0 ..< min (length aAncestors) (length bAncestors)] of
                            (r, cs5) \<Rightarrow> Some (Inr r, cs5))))
              | _ \<Rightarrow> Some (Inl AttributeError, cs2))))"

subsection \<open>Inherited members in bulk\<close>

text \<open>
  The \<^verbatim>\<open>for\<close> loop of \<^verbatim>\<open>getAllMethods\<close>: every method name of the class is stored in
  the table \<open>tbl\<close> with its signature and the class name.
\<close>

definition getAllMethods_loop ::
  "'i classes \<Rightarrow> string \<Rightarrow> (ValueType option \<times> string) pydict
     \<Rightarrow> ((ValueType option \<times> string) pydict, 'i) outcome"
where
  "getAllMethods_loop cs className tbl =
     (case classes_getitem cs className of
        (None, cs') \<Rightarrow> Some (Inl AttributeError, cs')
      | (Some ci, cs') \<Rightarrow>
          Some (Inr (fold (\<lambda>nm t. AList.update nm (dd_get (methods ci) nm, className) t)
                       (map fst (methods ci)) tbl), cs'))"

partial_function (option) getAllMethods ::
  "'i classes \<Rightarrow> string \<Rightarrow> ((ValueType option \<times> string) pydict, 'i) outcome"
where
  "getAllMethods cs className =
     (case classes_getitem cs className of
        (None, cs') \<Rightarrow> Some (Inl AttributeError, cs')
      | (Some ci, cs') \<Rightarrow>
          (case superclass ci of
             None \<Rightarrow> getAllMethods_loop cs' className []
           | Some sc \<Rightarrow>
               Option.bind (getAllMethods cs' sc) (\<lambda>(r, cs'').
                 case r of
                   Inl e \<Rightarrow> Some (Inl e, cs'')
                 | Inr tbl \<Rightarrow> getAllMethods_loop cs'' className tbl)))"

text \<open>
  The \<^verbatim>\<open>for\<close> loop of \<^verbatim>\<open>getOrderedAttrs\<close> on the attribute table \<open>d\<close> of the class.
  \<^verbatim>\<open>attrs[attr]\<close> on a missing name stores the null sentinel, and unpacking the null
  sentinel into \<^verbatim>\<open>attrType, attrInit\<close> raises \<^verbatim>\<open>TypeError\<close>.
\<close>

fun getOrderedAttrs_loop ::
  "(ValueType \<times> 'i) option pydict \<Rightarrow> string list \<Rightarrow> (string \<times> ValueType \<times> 'i) list
     \<Rightarrow> (error + (string \<times> ValueType \<times> 'i) list) \<times> (ValueType \<times> 'i) option pydict"
where
  "getOrderedAttrs_loop d [] acc = (Inr acc, d)"
| "getOrderedAttrs_loop d (attr # rest) acc =
     (case map_of d attr of
        None \<Rightarrow> (Inl TypeError, AList.update attr None d)
      | Some None \<Rightarrow> (Inl TypeError, d)
      | Some (Some (attrType, attrInit)) \<Rightarrow>
          getOrderedAttrs_loop d rest (acc @ [(attr, attrType, attrInit)]))"

text \<open>
  The part of \<^verbatim>\<open>getOrderedAttrs\<close> after the recursive call: \<^verbatim>\<open>attrs\<close> is still the
  empty list of line 157 when the loop starts. The attribute table is an object that the
  loop may change in place, so the record of the class in the registry holds the table
  that the loop leaves behind.
\<close>

definition getOrderedAttrs_own ::
  "'i classes \<Rightarrow> string \<Rightarrow> ((string \<times> ValueType \<times> 'i) list, 'i) outcome"
where
  "getOrderedAttrs_own cs className =
     (case classes_getitem cs className of
        (None, cs') \<Rightarrow> Some (Inl AttributeError, cs')
      | (Some ci, cs') \<Rightarrow>
          (case getOrderedAttrs_loop (attrs ci) (orderedAttrs ci) [] of
             (res, d) \<Rightarrow>
               Some (res, cs'(className \<mapsto> Some (ci\<lparr>attrs := d\<rparr>)))))"

text \<open>
  \<^verbatim>\<open>getOrderedAttrs\<close>. The result of the recursive call is bound to \<^verbatim>\<open>attr\<close>, the
  variable of the loop that follows, and is not used.
\<close>

partial_function (option) getOrderedAttrs ::
  "'i classes \<Rightarrow> string \<Rightarrow> ((string \<times> ValueType \<times> 'i) list, 'i) outcome"
where
  "getOrderedAttrs cs className =
     (case classes_getitem cs className of
        (None, cs') \<Rightarrow> Some (Inl AttributeError, cs')
      | (Some ci, cs') \<Rightarrow>
          (case superclass ci of
             None \<Rightarrow> getOrderedAttrs_own cs' className
           | Some sc \<Rightarrow>
               Option.bind (getOrderedAttrs cs' sc) (\<lambda>(r, cs'').
                 case r of
                   Inl e \<Rightarrow> Some (Inl e, cs'')
                 | Inr attr \<Rightarrow> getOrderedAttrs_own cs'' className)))"

subsection \<open>The registry invariant\<close>

text \<open>
  The invariant of the specification: the superclass graph is a tree rooted at
  \<^verbatim>\<open>object\<close>, without cycles, and the superclass of every class is registered.
  For one class \<open>c\<close> this says that the walk \<open>c\<close>, superclass of \<open>c\<close>, ... passes through
  registered records only and after \<open>n\<close> steps arrives at \<^verbatim>\<open>object\<close>, the one class
  without a superclass. \<open>superclass_chain cs n c\<close> is that walk, as the list of the
  names with their records, when it exists.
\<close>

fun superclass_chain :: "'i classes \<Rightarrow> nat \<Rightarrow> string \<Rightarrow> (string \<times> 'i ClassInfo) list option" where
  "superclass_chain cs 0 c =
     (case cs c of
        Some (Some ci) \<Rightarrow>
          if c = ''object'' \<and> superclass ci = None then Some [(c, ci)] else None
      | _ \<Rightarrow> None)"
| "superclass_chain cs (Suc n) c =
     (case cs c of
        Some (Some ci) \<Rightarrow>
          (case superclass ci of
             None \<Rightarrow> None
           | Some sc \<Rightarrow> map_option ((#) (c, ci)) (superclass_chain cs n sc))
      | _ \<Rightarrow> None)"

definition wf_classes :: "'i classes \<Rightarrow> bool" where
  "wf_classes cs = (\<forall>c \<in> dom cs. \<exists>n ch. superclass_chain cs n c = Some ch)"

subsection \<open>The merged method table\<close>

text \<open>
  The method table that the specification describes for \<^verbatim>\<open>allMethods\<close>, for a chain
  listed from the class to the root: the table of the ancestors is merged first, and
  then every method of the class is stored over it with the name of the class, replacing
  the entry of an ancestor under the same name.
\<close>

fun merged_methods :: "(string \<times> 'i ClassInfo) list \<Rightarrow> (ValueType option \<times> string) pydict" where
  "merged_methods [] = []"
| "merged_methods ((k, ci) # ancestors) =
     fold (\<lambda>nm t. AList.update nm (dd_get (methods ci) nm, k) t) (map fst (methods ci))
       (merged_methods ancestors)"

subsection \<open>An example registry\<close>

text \<open>
  The built-in classes and three declared ones: \<^verbatim>\<open>A\<close> under \<^verbatim>\<open>object\<close> with an
  attribute \<^verbatim>\<open>y\<close> and a method \<^verbatim>\<open>f\<close>; \<^verbatim>\<open>B\<close> under \<^verbatim>\<open>A\<close> with an attribute
  \<^verbatim>\<open>x\<close>, its own \<^verbatim>\<open>f\<close> and a method \<^verbatim>\<open>g\<close>; \<^verbatim>\<open>C\<close> under \<^verbatim>\<open>A\<close> with nothing of
  its own. Initial values are integers here.
\<close>

definition example_A :: "int ClassInfo" where
  "example_A = (newClassInfo ''A'' (Some ''object''))
     \<lparr>attrs := [(''y'', Some (IntType, 0))],
      methods := [(''f'', Some (FuncType [ClassValueType ''A''] IntType))],
      orderedAttrs := [''y'']\<rparr>"

definition example_B :: "int ClassInfo" where
  "example_B = (newClassInfo ''B'' (Some ''A''))
     \<lparr>attrs := [(''x'', Some (BoolType, 1))],
      methods := [(''f'', Some (FuncType [ClassValueType ''B''] IntType)),
                  (''g'', Some (FuncType [ClassValueType ''B''] StrType))],
      orderedAttrs := [''x'']\<rparr>"

definition example_C :: "int ClassInfo" where
  "example_C = newClassInfo ''C'' (Some ''A'')"

definition example_classes :: "int classes" where
  "example_classes =
     init_classes(''A'' \<mapsto> Some example_A, ''B'' \<mapsto> Some example_B, ''C'' \<mapsto> Some example_C)"

section \<open>Properties\<close>

subsection \<open>Reading the registry, and the superclass chain\<close>

lemma classes_getitem_Some: "cs c = Some v \<Longrightarrow> classes_getitem cs c = (v, cs)"
  by (simp add: classes_getitem_def)

lemma classes_getitem_None: "cs c = None \<Longrightarrow> classes_getitem cs c = (None, cs(c \<mapsto> None))"
  by (simp add: classes_getitem_def)

lemma chain_0D:
  "superclass_chain cs 0 c = Some ch \<Longrightarrow>
     \<exists>ci. cs c = Some (Some ci) \<and> superclass ci = None \<and> c = ''object'' \<and> ch = [(c, ci)]"
  by (auto split: option.splits if_splits)

lemma chain_SucD:
  "superclass_chain cs (Suc n) c = Some ch \<Longrightarrow>
     \<exists>ci sc ch'. cs c = Some (Some ci) \<and> superclass ci = Some sc \<and>
        superclass_chain cs n sc = Some ch' \<and> ch = (c, ci) # ch'"
  by (auto split: option.splits if_splits)

lemma chain_last_object:
  "superclass_chain cs n a = Some ch \<Longrightarrow> ''object'' \<in> fst ` set ch"
proof (induction n arbitrary: a ch)
  case 0
  from chain_0D[OF 0] show ?case by auto
next
  case (Suc n)
  from chain_SucD[OF Suc.prems] obtain ci sc ch' where
    "superclass_chain cs n sc = Some ch'" "ch = (a, ci) # ch'" by blast
  with Suc.IH show ?case by auto
qed

lemma chain_head:
  "superclass_chain cs n a = Some ch \<Longrightarrow> a \<in> fst ` set ch"
proof (cases n)
  case 0
  assume "superclass_chain cs n a = Some ch"
  with 0 chain_0D[of cs a ch] show ?thesis by auto
next
  case (Suc k)
  assume "superclass_chain cs n a = Some ch"
  with Suc chain_SucD[of cs k a ch] show ?thesis by auto
qed

lemma chain_suffix:
  "superclass_chain cs n a = Some ch \<Longrightarrow> b \<in> fst ` set ch \<Longrightarrow>
     \<exists>k chb. superclass_chain cs k b = Some chb \<and> set chb \<subseteq> set ch"
proof (induction n arbitrary: a ch)
  case 0
  from chain_0D[OF 0(1)] 0(2) have "b = a" by auto
  with 0(1) show ?case by blast
next
  case (Suc n)
  then obtain ci sc ch' where h: "cs a = Some (Some ci)" "superclass ci = Some sc"
      "superclass_chain cs n sc = Some ch'" "ch = (a, ci) # ch'"
    by (blast dest: chain_SucD)
  show ?case
  proof (cases "b = a")
    case True
    then show ?thesis using Suc.prems(1) by blast
  next
    case False
    then have "b \<in> fst ` set ch'" using Suc.prems(2) h(4) by auto
    from Suc.IH[OF h(3) this] show ?thesis using h(4) by auto
  qed
qed

lemma chain_hd:
  "superclass_chain cs n a = Some ch \<Longrightarrow> \<exists>ci rest. ch = (a, ci) # rest"
proof (cases n)
  case 0
  assume "superclass_chain cs n a = Some ch"
  with 0 chain_0D[of cs a ch] show ?thesis by auto
next
  case (Suc k)
  assume "superclass_chain cs n a = Some ch"
  with Suc chain_SucD[of cs k a ch] show ?thesis by auto
qed

lemma chain_length: "superclass_chain cs n a = Some ch \<Longrightarrow> length ch = Suc n"
proof (induction n arbitrary: a ch)
  case 0
  from chain_0D[OF 0] show ?case by auto
next
  case (Suc n)
  from chain_SucD[OF Suc.prems] obtain ci sc ch' where
    "superclass_chain cs n sc = Some ch'" "ch = (a, ci) # ch'" by blast
  with Suc.IH show ?case by auto
qed

subsection \<open>The walks along a chain\<close>

lemma getMethodHelper_chain:
  "superclass_chain cs n c = Some ch \<Longrightarrow>
     getMethodHelper cs c m =
       Some (Inr (case find (\<lambda>(k, ci). dict_in m (methods ci)) ch of
                    None \<Rightarrow> (None, None)
                  | Some (k, ci) \<Rightarrow> (dd_get (methods ci) m, Some k)), cs)"
proof (induction n arbitrary: c ch)
  case 0
  then obtain ci where "cs c = Some (Some ci)" "superclass ci = None" "ch = [(c, ci)]"
    by (blast dest: chain_0D)
  then show ?case
    by (subst getMethodHelper.simps) (simp add: classes_getitem_Some)
next
  case (Suc n)
  then obtain ci sc ch' where h: "cs c = Some (Some ci)" "superclass ci = Some sc"
      "superclass_chain cs n sc = Some ch'" "ch = (c, ci) # ch'"
    by (blast dest: chain_SucD)
  show ?case
    using h Suc.IH[OF h(3)]
    by (subst getMethodHelper.simps) (simp add: classes_getitem_Some)
qed


lemma getAttrHelper_chain:
  "superclass_chain cs n c = Some ch \<Longrightarrow>
     getAttrHelper cs c m =
       Some (Inr (case find (\<lambda>(k, ci). dict_in m (attrs ci)) ch of
                    None \<Rightarrow> Some (None, None)
                  | Some (k, ci) \<Rightarrow>
                      map_option (\<lambda>(t, i). (Some t, Some i)) (dd_get (attrs ci) m)), cs)"
proof (induction n arbitrary: c ch)
  case 0
  then obtain ci where "cs c = Some (Some ci)" "superclass ci = None" "ch = [(c, ci)]"
    by (blast dest: chain_0D)
  then show ?case
    by (subst getAttrHelper.simps) (simp add: classes_getitem_Some)
next
  case (Suc n)
  then obtain ci sc ch' where h: "cs c = Some (Some ci)" "superclass ci = Some sc"
      "superclass_chain cs n sc = Some ch'" "ch = (c, ci) # ch'"
    by (blast dest: chain_SucD)
  show ?case
    using h Suc.IH[OF h(3)]
    by (subst getAttrHelper.simps) (simp add: classes_getitem_Some)
qed

lemma getAttrOrMethod_chain:
  "superclass_chain cs n c = Some ch \<Longrightarrow>
     getAttrOrMethod cs c m =
       Some (case find (\<lambda>(k, ci). dict_in m (methods ci) \<or> dict_in m (attrs ci)) ch of
               None \<Rightarrow> Inr None
             | Some (k, ci) \<Rightarrow>
                 if dict_in m (methods ci) then Inr (dd_get (methods ci) m)
                 else map_sum id Some (subscript (dd_get (attrs ci) m) fst), cs)"
proof (induction n arbitrary: c ch)
  case 0
  then obtain ci where "cs c = Some (Some ci)" "superclass ci = None" "ch = [(c, ci)]"
    by (blast dest: chain_0D)
  then show ?case
    by (subst getAttrOrMethod.simps) (simp add: classes_getitem_Some)
next
  case (Suc n)
  then obtain ci sc ch' where h: "cs c = Some (Some ci)" "superclass ci = Some sc"
      "superclass_chain cs n sc = Some ch'" "ch = (c, ci) # ch'"
    by (blast dest: chain_SucD)
  show ?case
    using h Suc.IH[OF h(3)]
    by (subst getAttrOrMethod.simps) (simp add: classes_getitem_Some)
qed

lemma isSubClass_chain:
  "superclass_chain cs n a = Some ch \<Longrightarrow>
     isSubClass_loop cs (Some a) b = Some (Inr (b \<in> fst ` set ch), cs)"
proof (induction n arbitrary: a ch)
  case 0
  then obtain ci where "cs a = Some (Some ci)" "superclass ci = None" "ch = [(a, ci)]"
    by (blast dest: chain_0D)
  then show ?case
    by (subst isSubClass_loop.simps, simp add: classes_getitem_Some)
       (subst isSubClass_loop.simps, auto)
next
  case (Suc n)
  then obtain ci sc ch' where h: "cs a = Some (Some ci)" "superclass ci = Some sc"
      "superclass_chain cs n sc = Some ch'" "ch = (a, ci) # ch'"
    by (blast dest: chain_SucD)
  show ?case
    using h Suc.IH[OF h(3)]
    by (subst isSubClass_loop.simps) (auto simp add: classes_getitem_Some)
qed

lemma join_ancestors_chain:
  "superclass_chain cs n a = Some ch \<Longrightarrow>
     join_ancestors cs a acc = Some (Inr (acc @ map fst (tl ch)), cs)"
proof (induction n arbitrary: a ch acc)
  case 0
  then obtain ci where "cs a = Some (Some ci)" "superclass ci = None" "ch = [(a, ci)]"
    by (blast dest: chain_0D)
  then show ?case
    by (subst join_ancestors.simps) (simp add: classes_getitem_Some)
next
  case (Suc n)
  then obtain ci sc ch' where h: "cs a = Some (Some ci)" "superclass ci = Some sc"
      "superclass_chain cs n sc = Some ch'" "ch = (a, ci) # ch'"
    by (blast dest: chain_SucD)
  from chain_hd[OF h(3)] obtain ci' ps where ch': "ch' = (sc, ci') # ps"
    by blast
  show ?case
    using h ch' Suc.IH[OF h(3), of "acc @ [sc]"]
    by (subst join_ancestors.simps) (simp add: classes_getitem_Some)
qed

subsection \<open>The example registry is well formed\<close>

lemma example_chain_object:
  "superclass_chain example_classes 0 ''object'' = Some [(''object'', objectInfo)]"
  by (simp add: example_classes_def init_classes_def objectInfo_def newClassInfo_def)

lemma example_chain_A:
  "superclass_chain example_classes (Suc 0) ''A'' =
     Some [(''A'', example_A), (''object'', objectInfo)]"
  by (simp add: example_classes_def init_classes_def example_A_def objectInfo_def
        newClassInfo_def)

lemma example_chain_B:
  "superclass_chain example_classes (Suc (Suc 0)) ''B'' =
     Some [(''B'', example_B), (''A'', example_A), (''object'', objectInfo)]"
  by (simp add: example_classes_def init_classes_def example_A_def example_B_def objectInfo_def
        newClassInfo_def)

lemma example_chain_C:
  "superclass_chain example_classes (Suc (Suc 0)) ''C'' =
     Some [(''C'', example_C), (''A'', example_A), (''object'', objectInfo)]"
  by (simp add: example_classes_def init_classes_def example_A_def example_C_def objectInfo_def
        newClassInfo_def)

subsection \<open>Subclass test\<close>

text \<open>
  Claim C3. For a class \<open>a\<close> of a well-formed registry, with \<open>ch\<close> its chain
  \<open>a\<close>, superclass of \<open>a\<close>, ... up to \<^verbatim>\<open>object\<close>: \<^verbatim>\<open>isSubClass(a, b)\<close> returns true
  exactly when \<open>b\<close> is one of the names on the chain, and leaves the registry as it was.
  Hence \<^verbatim>\<open>isSubClass(a, a)\<close> and \<^verbatim>\<open>isSubClass(a, "object")\<close> are true, and the relation
  is transitive.
\<close>

theorem isSubClass_closure:
  assumes "superclass_chain cs n a = Some ch"
  shows "isSubClass cs a b = Some (Inr (b \<in> fst ` set ch), cs)
       \<and> isSubClass cs a a = Some (Inr True, cs)
       \<and> isSubClass cs a ''object'' = Some (Inr True, cs)
       \<and> (isSubClass cs a b = Some (Inr True, cs) \<and> isSubClass cs b c = Some (Inr True, cs)
            \<longrightarrow> isSubClass cs a c = Some (Inr True, cs))"
proof -
  have walk: "isSubClass cs a x = Some (Inr (x \<in> fst ` set ch), cs)" for x
    unfolding isSubClass_def by (rule isSubClass_chain[OF assms])
  have refl: "isSubClass cs a a = Some (Inr True, cs)"
    using walk[of a] chain_head[OF assms] by simp
  have root: "isSubClass cs a ''object'' = Some (Inr True, cs)"
    using walk[of "''object''"] chain_last_object[OF assms] by simp
  have trans: "isSubClass cs a c = Some (Inr True, cs)"
    if ab: "isSubClass cs a b = Some (Inr True, cs)"
      and bc: "isSubClass cs b c = Some (Inr True, cs)"
  proof -
    from ab walk[of b] have "b \<in> fst ` set ch" by simp
    from chain_suffix[OF assms this] obtain k chb where
      chb: "superclass_chain cs k b = Some chb" "set chb \<subseteq> set ch" by blast
    from bc isSubClass_chain[OF chb(1), of c] have "c \<in> fst ` set chb"
      by (simp add: isSubClass_def)
    with chb(2) have "c \<in> fst ` set ch" by auto
    with walk[of c] show ?thesis by simp
  qed
  from walk refl root trans show ?thesis by blast
qed

theorem isSubClass_closure_witness:
  "isSubClass example_classes ''B'' ''A'' = Some (Inr True, example_classes)
   \<and> isSubClass example_classes ''A'' ''object'' = Some (Inr True, example_classes)
   \<and> isSubClass example_classes ''B'' ''object'' = Some (Inr True, example_classes)
   \<and> isSubClass example_classes ''B'' ''B'' = Some (Inr True, example_classes)
   \<and> isSubClass example_classes ''B'' ''C'' = Some (Inr False, example_classes)"
proof -
  have ab: "isSubClass example_classes ''B'' ''A'' = Some (Inr True, example_classes)"
    using isSubClass_closure[OF example_chain_B, of "''A''"] by simp
  have ao: "isSubClass example_classes ''A'' ''object'' = Some (Inr True, example_classes)"
    using isSubClass_closure[OF example_chain_A] by simp
  have bo: "isSubClass example_classes ''B'' ''object'' = Some (Inr True, example_classes)"
    using isSubClass_closure[OF example_chain_B, of "''A''" "''object''"] ab ao by blast
  have bb: "isSubClass example_classes ''B'' ''B'' = Some (Inr True, example_classes)"
    using isSubClass_closure[OF example_chain_B] by blast
  have bc: "isSubClass example_classes ''B'' ''C'' = Some (Inr False, example_classes)"
    using isSubClass_closure[OF example_chain_B, of "''C''"] by simp
  from ab ao bo bb bc show ?thesis by blast
qed

subsection \<open>Member lookup\<close>

text \<open>
  Claim C7. For a class \<open>c\<close> of a well-formed registry with chain \<open>ch\<close>, each lookup
  is decided by the first class on the chain that declares the name \<open>m\<close>
  (\<^const>\<open>find\<close> returns the first element of the list that satisfies the test):
  when no class on the chain declares it, \<^verbatim>\<open>getMethod\<close>, \<^verbatim>\<open>getMethodDefClass\<close>,
  \<^verbatim>\<open>getAttr\<close>, \<^verbatim>\<open>getAttrInit\<close> and \<^verbatim>\<open>getAttrOrMethod\<close> return \<^verbatim>\<open>None\<close> as a value and
  raise nothing; when some class declares it, the result is read from the closest such
  class. The registry is left as it was.
\<close>

theorem lookup_closest_or_not_found:
  assumes "superclass_chain cs n c = Some ch"
  shows "(case find (\<lambda>(k, ci). dict_in m (methods ci)) ch of
            None \<Rightarrow>
              getMethod cs c m = Some (Inr None, cs) \<and>
              getMethodDefClass cs c m = Some (Inr None, cs)
          | Some (k, ci) \<Rightarrow>
              getMethod cs c m = Some (Inr (dd_get (methods ci) m), cs) \<and>
              getMethodDefClass cs c m = Some (Inr (Some k), cs))
       \<and> (case find (\<lambda>(k, ci). dict_in m (attrs ci)) ch of
            None \<Rightarrow>
              getAttr cs c m = Some (Inr None, cs) \<and>
              getAttrInit cs c m = Some (Inr None, cs)
          | Some (k, ci) \<Rightarrow>
              getAttr cs c m =
                Some (map_sum id Some (subscript (dd_get (attrs ci) m) fst), cs) \<and>
              getAttrInit cs c m =
                Some (map_sum id Some (subscript (dd_get (attrs ci) m) snd), cs))
       \<and> (case find (\<lambda>(k, ci). dict_in m (methods ci) \<or> dict_in m (attrs ci)) ch of
            None \<Rightarrow> getAttrOrMethod cs c m = Some (Inr None, cs)
          | Some (k, ci) \<Rightarrow>
              getAttrOrMethod cs c m =
                Some (if dict_in m (methods ci) then Inr (dd_get (methods ci) m)
                      else map_sum id Some (subscript (dd_get (attrs ci) m) fst), cs))"
proof -
  have meth: "(case find (\<lambda>(k, ci). dict_in m (methods ci)) ch of
            None \<Rightarrow>
              getMethod cs c m = Some (Inr None, cs) \<and>
              getMethodDefClass cs c m = Some (Inr None, cs)
          | Some (k, ci) \<Rightarrow>
              getMethod cs c m = Some (Inr (dd_get (methods ci) m), cs) \<and>
              getMethodDefClass cs c m = Some (Inr (Some k), cs))"
    by (simp add: getMethod_def getMethodDefClass_def getMethodHelper_chain[OF assms]
          split: option.split)
  have attr: "(case find (\<lambda>(k, ci). dict_in m (attrs ci)) ch of
            None \<Rightarrow>
              getAttr cs c m = Some (Inr None, cs) \<and>
              getAttrInit cs c m = Some (Inr None, cs)
          | Some (k, ci) \<Rightarrow>
              getAttr cs c m =
                Some (map_sum id Some (subscript (dd_get (attrs ci) m) fst), cs) \<and>
              getAttrInit cs c m =
                Some (map_sum id Some (subscript (dd_get (attrs ci) m) snd), cs))"
    by (auto simp add: getAttr_def getAttrInit_def getAttrHelper_chain[OF assms] subscript_def
          split: option.split)
  have both: "(case find (\<lambda>(k, ci). dict_in m (methods ci) \<or> dict_in m (attrs ci)) ch of
            None \<Rightarrow> getAttrOrMethod cs c m = Some (Inr None, cs)
          | Some (k, ci) \<Rightarrow>
              getAttrOrMethod cs c m =
                Some (if dict_in m (methods ci) then Inr (dd_get (methods ci) m)
                      else map_sum id Some (subscript (dd_get (attrs ci) m) fst), cs))"
    by (simp add: getAttrOrMethod_chain[OF assms] split: option.split)
  from meth attr both show ?thesis by blast
qed

theorem lookup_closest_or_not_found_witness:
  "getMethod example_classes ''B'' ''h'' = Some (Inr None, example_classes)
   \<and> getMethodDefClass example_classes ''B'' ''h'' = Some (Inr None, example_classes)
   \<and> getAttr example_classes ''B'' ''h'' = Some (Inr None, example_classes)
   \<and> getAttrInit example_classes ''B'' ''h'' = Some (Inr None, example_classes)
   \<and> getAttrOrMethod example_classes ''B'' ''h'' = Some (Inr None, example_classes)
   \<and> getMethodDefClass example_classes ''B'' ''f'' = Some (Inr (Some ''B''), example_classes)
   \<and> getMethodDefClass example_classes ''B'' ''__init__'' =
        Some (Inr (Some ''object''), example_classes)
   \<and> getAttr example_classes ''B'' ''y'' = Some (Inr (Some IntType), example_classes)"
  using lookup_closest_or_not_found[OF example_chain_B, of "''h''"]
    lookup_closest_or_not_found[OF example_chain_B, of "''f''"]
    lookup_closest_or_not_found[OF example_chain_B, of "''__init__''"]
    lookup_closest_or_not_found[OF example_chain_B, of "''y''"]
  by (simp add: example_A_def example_B_def objectInfo_def newClassInfo_def dict_in_def
        dd_get_def subscript_def)

subsection \<open>Queries on an unknown class\<close>

text \<open>
  Claim C8. \<^verbatim>\<open>getMethod\<close> on a class name that is not a key of the registry raises
  (\<^verbatim>\<open>AttributeError\<close>, from the attribute access on the null sentinel), and the registry
  it leaves behind has that name as a key mapped to the null sentinel, so that
  \<^verbatim>\<open>classExists\<close> is true of it afterwards: the registry has changed. The same holds
  of \<^verbatim>\<open>getAttr\<close>, \<^verbatim>\<open>getAttrOrMethod\<close>, \<^verbatim>\<open>getAllMethods\<close> and \<^verbatim>\<open>getOrderedAttrs\<close>.
\<close>

theorem missing_class_is_inserted:
  assumes "\<not> classExists cs c"
  shows "getMethod cs c m = Some (Inl AttributeError, cs(c \<mapsto> None))
       \<and> getAttr cs c m = Some (Inl AttributeError, cs(c \<mapsto> None))
       \<and> getAttrOrMethod cs c m = Some (Inl AttributeError, cs(c \<mapsto> None))
       \<and> getAllMethods cs c = Some (Inl AttributeError, cs(c \<mapsto> None))
       \<and> getOrderedAttrs cs c = Some (Inl AttributeError, cs(c \<mapsto> None))
       \<and> classExists (cs(c \<mapsto> None)) c
       \<and> cs(c \<mapsto> None) \<noteq> cs"
proof -
  from assms have none: "cs c = None" by (simp add: classExists_def)
  have "getMethodHelper cs c m = Some (Inl AttributeError, cs(c \<mapsto> None))"
    by (subst getMethodHelper.simps) (simp add: classes_getitem_None none)
  then have 1: "getMethod cs c m = Some (Inl AttributeError, cs(c \<mapsto> None))"
    by (simp add: getMethod_def)
  have "getAttrHelper cs c m = Some (Inl AttributeError, cs(c \<mapsto> None))"
    by (subst getAttrHelper.simps) (simp add: classes_getitem_None none)
  then have 2: "getAttr cs c m = Some (Inl AttributeError, cs(c \<mapsto> None))"
    by (simp add: getAttr_def)
  have 3: "getAttrOrMethod cs c m = Some (Inl AttributeError, cs(c \<mapsto> None))"
    by (subst getAttrOrMethod.simps) (simp add: classes_getitem_None none)
  have 4: "getAllMethods cs c = Some (Inl AttributeError, cs(c \<mapsto> None))"
    by (subst getAllMethods.simps) (simp add: classes_getitem_None none)
  have 5: "getOrderedAttrs cs c = Some (Inl AttributeError, cs(c \<mapsto> None))"
    by (subst getOrderedAttrs.simps) (simp add: classes_getitem_None none)
  have 6: "classExists (cs(c \<mapsto> None)) c" by (simp add: classExists_def)
  have 7: "cs(c \<mapsto> None) \<noteq> cs" using none by (metis fun_upd_same option.distinct(1))
  from 1 2 3 4 5 6 7 show ?thesis by blast
qed

theorem missing_class_is_inserted_witness:
  "\<not> classExists example_classes ''Z''
   \<and> getMethod example_classes ''Z'' ''f'' =
       Some (Inl AttributeError, example_classes(''Z'' \<mapsto> None))
   \<and> classExists (example_classes(''Z'' \<mapsto> None)) ''Z''"
proof -
  have z: "\<not> classExists example_classes ''Z''"
    by (simp add: classExists_def example_classes_def init_classes_def)
  from missing_class_is_inserted[OF z, of "''f''"] z show ?thesis by blast
qed

subsection \<open>Subtyping and assignability of value types\<close>

text \<open>
  Claim C4. \<^verbatim>\<open>isSubtype(a, b)\<close> is true when \<open>b\<close> is the Object type; on two class
  references it is \<^verbatim>\<open>isSubClass\<close> of their names; in every other combination it
  returns whether \<open>a\<close> and \<open>b\<close> are the same type.
\<close>

theorem isSubtype_cases:
  "isSubtype cs a ObjectType = Some (Inr True, cs)
   \<and> isSubtype cs (ClassValueType x) (ClassValueType y) = isSubClass cs x y
   \<and> (b \<noteq> ObjectType \<and> \<not> (\<exists>x y. a = ClassValueType x \<and> b = ClassValueType y)
        \<longrightarrow> isSubtype cs a b = Some (Inr (a = b), cs))"
  by (auto simp add: isSubtype_def split: ValueType.splits)

theorem isSubtype_cases_witness:
  "isSubtype example_classes IntType BoolType = Some (Inr False, example_classes)
   \<and> isSubtype example_classes IntType IntType = Some (Inr True, example_classes)
   \<and> isSubtype example_classes (ClassValueType ''B'') IntType = Some (Inr False, example_classes)"
  using isSubtype_cases[of example_classes IntType _ _ BoolType]
    isSubtype_cases[of example_classes IntType _ _ IntType]
    isSubtype_cases[of example_classes "ClassValueType ''B''" _ _ IntType]
  by simp

lemma and_then_Inr: "and_then (Some (Inr v, cs)) f = f v cs"
  by (simp add: and_then_def)

lemma and_then_Inl: "and_then (Some (Inl e, cs)) f = Some (Inl e, cs)"
  by (simp add: and_then_def)

lemma and_then_None: "and_then None f = None"
  by (simp add: and_then_def)

lemma isSubtype_None_left: "isSubtype cs NoneType b = Some (Inr (b = ObjectType \<or> b = NoneType), cs)"
  by (auto simp add: isSubtype_def split: ValueType.splits)

text \<open>
  Claim C5. \<^verbatim>\<open>canAssign(a, b)\<close> returns true exactly when \<^verbatim>\<open>isSubtype(a, b)\<close> returns
  true, or \<open>a\<close> is the None type and \<open>b\<close> is none of Int, Bool, Str; whenever
  \<^verbatim>\<open>isSubtype\<close> returns a boolean, \<^verbatim>\<open>canAssign\<close> returns that disjunction. None is
  assignable to the class reference \<^verbatim>\<open>object\<close> and not to Int, Bool or Str.
\<close>

theorem canAssign_iff:
  "((\<exists>cs'. canAssign cs a b = Some (Inr True, cs')) \<longleftrightarrow>
      (\<exists>cs'. isSubtype cs a b = Some (Inr True, cs')) \<or>
      (a = NoneType \<and> b \<notin> {IntType, BoolType, StrType}))
   \<and> (isSubtype cs a b = Some (Inr r, cs') \<longrightarrow>
        canAssign cs a b =
          Some (Inr (r \<or> (a = NoneType \<and> b \<notin> {IntType, BoolType, StrType})), cs'))
   \<and> canAssign cs NoneType (ClassValueType ''object'') = Some (Inr True, cs)
   \<and> canAssign cs NoneType IntType = Some (Inr False, cs)
   \<and> canAssign cs NoneType BoolType = Some (Inr False, cs)
   \<and> canAssign cs NoneType StrType = Some (Inr False, cs)"
proof -
  have ret: "canAssign cs a b =
          Some (Inr (r \<or> (a = NoneType \<and> b \<notin> {IntType, BoolType, StrType})), cs')"
    if "isSubtype cs a b = Some (Inr r, cs')" for r cs'
    using that by (auto simp add: canAssign_def and_then_Inr)
  have iff: "(\<exists>cs'. canAssign cs a b = Some (Inr True, cs')) \<longleftrightarrow>
      (\<exists>cs'. isSubtype cs a b = Some (Inr True, cs')) \<or>
      (a = NoneType \<and> b \<notin> {IntType, BoolType, StrType})"
  proof (cases "isSubtype cs a b")
    case None
    then have "a \<noteq> NoneType" using isSubtype_None_left[of cs b] by auto
    with None show ?thesis by (simp add: canAssign_def and_then_None)
  next
    case (Some p)
    obtain res cs1 where p: "p = (res, cs1)" by (cases p)
    show ?thesis
    proof (cases res)
      case (Inl e)
      with Some p have "a \<noteq> NoneType" using isSubtype_None_left[of cs b] by auto
      with Some p Inl show ?thesis by (simp add: canAssign_def and_then_Inl)
    next
      case (Inr r)
      with Some p ret[of r cs1] show ?thesis by auto
    qed
  qed
  have ex: "canAssign cs NoneType (ClassValueType ''object'') = Some (Inr True, cs)"
    "canAssign cs NoneType IntType = Some (Inr False, cs)"
    "canAssign cs NoneType BoolType = Some (Inr False, cs)"
    "canAssign cs NoneType StrType = Some (Inr False, cs)"
    by (simp_all add: canAssign_def isSubtype_None_left and_then_Inr)
  from iff ret ex show ?thesis by blast
qed

theorem canAssign_iff_witness:
  "isSubtype example_classes NoneType EmptyType = Some (Inr False, example_classes)
   \<and> canAssign example_classes NoneType EmptyType = Some (Inr True, example_classes)
   \<and> canAssign example_classes NoneType (ClassValueType ''B'') = Some (Inr True, example_classes)"
proof -
  have 1: "isSubtype example_classes NoneType EmptyType = Some (Inr False, example_classes)"
    by (simp add: isSubtype_def)
  have 2: "isSubtype example_classes NoneType (ClassValueType ''B'') = Some (Inr False, example_classes)"
    by (simp add: isSubtype_def)
  from 1 2 canAssign_iff[of example_classes NoneType EmptyType False example_classes]
    canAssign_iff[of example_classes NoneType "ClassValueType ''B''" False example_classes]
  show ?thesis by simp
qed

subsection \<open>All methods of a class\<close>

lemma map_of_fold_update:
  "map_of (fold (\<lambda>nm t. AList.update nm (g nm) t) ks tbl) m =
     (if m \<in> set ks then Some (g m) else map_of tbl m)"
  by (induction ks arbitrary: tbl) (auto simp add: update_conv')

lemma distinct_fold_update:
  "distinct (map fst tbl) \<Longrightarrow>
     distinct (map fst (fold (\<lambda>nm t. AList.update nm (g nm) t) ks tbl))"
  by (induction ks arbitrary: tbl) (auto simp add: distinct_update)

lemma distinct_merged_methods: "distinct (map fst (merged_methods ch))"
  by (induction ch rule: merged_methods.induct) (simp_all add: distinct_fold_update)

lemma map_of_merged_methods:
  "map_of (merged_methods ch) m =
     (case find (\<lambda>(k, ci). dict_in m (methods ci)) ch of
        None \<Rightarrow> None
      | Some (k, ci) \<Rightarrow> Some (dd_get (methods ci) m, k))"
  by (induction ch rule: merged_methods.induct) (simp_all add: map_of_fold_update dict_in_def)

lemma getAllMethods_loop_Some:
  "cs c = Some (Some ci) \<Longrightarrow>
     getAllMethods_loop cs c tbl =
       Some (Inr (fold (\<lambda>nm t. AList.update nm (dd_get (methods ci) nm, c) t)
                    (map fst (methods ci)) tbl), cs)"
  by (simp add: getAllMethods_loop_def classes_getitem_Some)

lemma getAllMethods_chain:
  "superclass_chain cs n c = Some ch \<Longrightarrow>
     getAllMethods cs c = Some (Inr (merged_methods ch), cs)"
proof (induction n arbitrary: c ch)
  case 0
  then obtain ci where h: "cs c = Some (Some ci)" "superclass ci = None" "ch = [(c, ci)]"
    by (blast dest: chain_0D)
  then show ?case
    by (subst getAllMethods.simps) (simp add: classes_getitem_Some getAllMethods_loop_Some)
next
  case (Suc n)
  then obtain ci sc ch' where h: "cs c = Some (Some ci)" "superclass ci = Some sc"
      "superclass_chain cs n sc = Some ch'" "ch = (c, ci) # ch'"
    by (blast dest: chain_SucD)
  show ?case
    using h Suc.IH[OF h(3)]
    by (subst getAllMethods.simps) (simp add: classes_getitem_Some getAllMethods_loop_Some)
qed

text \<open>
  Claim C6. For a class \<open>c\<close> of a well-formed registry with chain \<open>ch\<close>,
  \<^verbatim>\<open>getAllMethods\<close> returns the table merged from the root down to \<open>c\<close>. Its keys are
  distinct (an overriding method replaces the entry, it adds none), and every method
  name is mapped to the signature and the name of the closest class on the chain that
  declares it.
\<close>

theorem getAllMethods_flattened:
  assumes "superclass_chain cs n c = Some ch"
  shows "getAllMethods cs c = Some (Inr (merged_methods ch), cs)
       \<and> distinct (map fst (merged_methods ch))
       \<and> map_of (merged_methods ch) m =
           (case find (\<lambda>(k, ci). dict_in m (methods ci)) ch of
              None \<Rightarrow> None
            | Some (k, ci) \<Rightarrow> Some (dd_get (methods ci) m, k))"
  using getAllMethods_chain[OF assms] distinct_merged_methods[of ch] map_of_merged_methods[of ch m]
  by simp

theorem getAllMethods_flattened_witness:
  "getAllMethods example_classes ''B'' =
     Some (Inr [(''__init__'', Some (FuncType [ObjectType] NoneType), ''object''),
                (''f'', Some (FuncType [ClassValueType ''B''] IntType), ''B''),
                (''g'', Some (FuncType [ClassValueType ''B''] StrType), ''B'')], example_classes)"
  using getAllMethods_flattened[OF example_chain_B]
  by (simp add: example_A_def example_B_def objectInfo_def newClassInfo_def dd_get_def init_sig_def)

subsection \<open>Ordered attributes\<close>

lemma getOrderedAttrs_own_same:
  "cs c = Some (Some ci) \<Longrightarrow> getOrderedAttrs_loop (attrs ci) (orderedAttrs ci) [] = (r, attrs ci) \<Longrightarrow>
     getOrderedAttrs_own cs c = Some (r, cs)"
  by (simp add: getOrderedAttrs_own_def classes_getitem_Some fun_upd_idem)

lemma example_lookup:
  "example_classes ''object'' = Some (Some objectInfo)"
  "example_classes ''A'' = Some (Some example_A)"
  "example_classes ''B'' = Some (Some example_B)"
  "example_classes ''C'' = Some (Some example_C)"
  by (simp_all add: example_classes_def init_classes_def)

lemma example_own_attrs:
  "getOrderedAttrs_own example_classes ''object'' = Some (Inr [], example_classes)"
  "getOrderedAttrs_own example_classes ''A'' = Some (Inr [(''y'', IntType, 0)], example_classes)"
  "getOrderedAttrs_own example_classes ''B'' = Some (Inr [(''x'', BoolType, 1)], example_classes)"
proof -
  show "getOrderedAttrs_own example_classes ''object'' = Some (Inr [], example_classes)"
    by (rule getOrderedAttrs_own_same[where ci = objectInfo])
      (simp_all add: example_lookup objectInfo_def newClassInfo_def)
  show "getOrderedAttrs_own example_classes ''A'' = Some (Inr [(''y'', IntType, 0)], example_classes)"
    by (rule getOrderedAttrs_own_same[where ci = example_A])
      (simp_all add: example_lookup example_A_def newClassInfo_def)
  show "getOrderedAttrs_own example_classes ''B'' = Some (Inr [(''x'', BoolType, 1)], example_classes)"
    by (rule getOrderedAttrs_own_same[where ci = example_B])
      (simp_all add: example_lookup example_B_def newClassInfo_def)
qed

text \<open>
  Claim C2. In the example registry \<^verbatim>\<open>B\<close> declares \<^verbatim>\<open>x\<close> and inherits \<^verbatim>\<open>y\<close> from
  \<^verbatim>\<open>A\<close>. \<^verbatim>\<open>getOrderedAttrs\<close> on \<^verbatim>\<open>B\<close> returns the attribute \<^verbatim>\<open>x\<close> alone: the list
  computed for \<^verbatim>\<open>A\<close> is bound to the loop variable and lost.
\<close>

theorem getOrderedAttrs_drops_inherited:
  "getOrderedAttrs example_classes ''A'' = Some (Inr [(''y'', IntType, 0)], example_classes)
   \<and> getOrderedAttrs example_classes ''B'' = Some (Inr [(''x'', BoolType, 1)], example_classes)"
proof -
  have o: "getOrderedAttrs example_classes ''object'' = Some (Inr [], example_classes)"
    by (subst getOrderedAttrs.simps)
      (simp add: classes_getitem_Some example_lookup example_own_attrs objectInfo_def
         newClassInfo_def)
  have a: "getOrderedAttrs example_classes ''A'' = Some (Inr [(''y'', IntType, 0)], example_classes)"
    by (subst getOrderedAttrs.simps)
      (simp add: classes_getitem_Some example_lookup example_own_attrs o example_A_def
         newClassInfo_def)
  have b: "getOrderedAttrs example_classes ''B'' = Some (Inr [(''x'', BoolType, 1)], example_classes)"
    by (subst getOrderedAttrs.simps)
      (simp add: classes_getitem_Some example_lookup example_own_attrs a example_B_def
         newClassInfo_def)
  from a b show ?thesis by blast
qed

subsection \<open>Join of two unrelated classes\<close>

lemma classes_getitem_SomeD:
  "classes_getitem cs c = (Some ci, cs') \<Longrightarrow> cs c = Some (Some ci) \<and> cs' = cs"
  by (auto simp add: classes_getitem_def split: option.splits)

lemma isSubClass_loop_False:
  assumes "isSubClass_loop cs cur b = Some y"
  shows "\<forall>cs'. y = (Inr False, cs') \<longrightarrow>
           cs' = cs \<and>
           (\<forall>a. cur = Some a \<longrightarrow>
              (\<exists>anc. \<forall>acc. join_ancestors cs a acc = Some (Inr (acc @ anc), cs)))"
  using assms
proof (induction rule: isSubClass_loop.raw_induct[rotated 1, consumes 1])
  case (1 f cs cur b y)
  show ?case
  proof (intro allI impI)
    fix cs'
    assume y: "y = (Inr False, cs')"
    show "cs' = cs \<and>
           (\<forall>a. cur = Some a \<longrightarrow>
              (\<exists>anc. \<forall>acc. join_ancestors cs a acc = Some (Inr (acc @ anc), cs)))"
    proof (cases cur)
      case None
      with 1(2) y show ?thesis by simp
    next
      case (Some a)
      with 1(2) y have ab: "a \<noteq> b" by (auto split: if_splits)
      obtain v cs1 where g: "classes_getitem cs a = (v, cs1)" by (cases "classes_getitem cs a")
      with 1(2) y Some ab obtain ci where v: "v = Some ci" by (cases v) auto
      from g v have ca: "cs a = Some (Some ci)" and cs1: "cs1 = cs"
        using classes_getitem_SomeD by blast+
      from 1(2) Some ab g v cs1 have rec: "f cs (superclass ci) b = Some y" by simp
      from 1(1)[OF rec] y have same: "cs' = cs"
        and up: "\<forall>s. superclass ci = Some s \<longrightarrow>
              (\<exists>anc. \<forall>acc. join_ancestors cs s acc = Some (Inr (acc @ anc), cs))"
        by blast+
      have "\<exists>anc. \<forall>acc. join_ancestors cs a acc = Some (Inr (acc @ anc), cs)"
      proof (cases "superclass ci")
        case None
        have "\<forall>acc. join_ancestors cs a acc = Some (Inr (acc @ []), cs)"
          using ca None by (subst join_ancestors.simps) (simp add: classes_getitem_Some)
        then show ?thesis by blast
      next
        case (Some s)
        with up obtain anc where
          anc: "\<And>acc. join_ancestors cs s acc = Some (Inr (acc @ anc), cs)" by blast
        have "\<forall>acc. join_ancestors cs a acc = Some (Inr (acc @ (s # anc)), cs)"
          using ca Some anc by (subst join_ancestors.simps) (simp add: classes_getitem_Some)
        then show ?thesis by blast
      qed
      with same Some show ?thesis by simp
    qed
  qed
qed

lemma canAssign_class_False:
  assumes "canAssign cs (ClassValueType an) (ClassValueType bn) = Some (Inr False, cs')"
  shows "cs' = cs \<and> (\<exists>anc. \<forall>acc. join_ancestors cs an acc = Some (Inr (acc @ anc), cs))"
proof -
  have sub: "isSubtype cs (ClassValueType an) (ClassValueType bn) = isSubClass_loop cs (Some an) bn"
    by (simp add: isSubtype_def isSubClass_def)
  obtain y where y: "isSubClass_loop cs (Some an) bn = Some y"
    using assms by (cases "isSubClass_loop cs (Some an) bn") (simp_all add: canAssign_def sub and_then_None)
  obtain r cs1 where yr: "y = (r, cs1)" by (cases y)
  from assms y yr have "r = Inr False \<and> cs1 = cs'"
    by (cases r) (auto simp add: canAssign_def sub and_then_Inl and_then_Inr split: if_splits)
  with isSubClass_loop_False[OF y] yr show ?thesis by blast
qed

lemma canAssign_chain:
  assumes "superclass_chain cs n an = Some ch"
  shows "canAssign cs (ClassValueType an) (ClassValueType bn) =
           Some (Inr (bn \<in> fst ` set ch), cs)"
  using isSubClass_chain[OF assms, of bn]
  by (simp add: canAssign_def isSubtype_def isSubClass_def and_then_Inr)

lemma example_unrelated:
  "canAssign example_classes (ClassValueType ''B'') (ClassValueType ''C'') =
     Some (Inr False, example_classes)"
  "canAssign example_classes (ClassValueType ''C'') (ClassValueType ''B'') =
     Some (Inr False, example_classes)"
  using canAssign_chain[OF example_chain_B, of "''C''"]
    canAssign_chain[OF example_chain_C, of "''B''"]
  by simp_all

text \<open>
  Claim C1. In the example registry \<^verbatim>\<open>B\<close> and \<^verbatim>\<open>C\<close> are siblings under \<^verbatim>\<open>A\<close>, and
  neither is assignable to the other. \<^verbatim>\<open>join\<close> of the two class references returns the
  Object type, not the class reference \<^verbatim>\<open>A\<close>.
\<close>

theorem join_siblings_returns_object:
  "canAssign example_classes (ClassValueType ''B'') (ClassValueType ''C'') =
     Some (Inr False, example_classes)
   \<and> canAssign example_classes (ClassValueType ''C'') (ClassValueType ''B'') =
     Some (Inr False, example_classes)
   \<and> join example_classes (ClassValueType ''B'') (ClassValueType ''C'') =
     Some (Inr (JType ObjectType), example_classes)
   \<and> join example_classes (ClassValueType ''B'') (ClassValueType ''C'') \<noteq>
     Some (Inr (JType (ClassValueType ''A'')), example_classes)"
proof -
  have "join example_classes (ClassValueType ''B'') (ClassValueType ''C'') =
      Some (Inr (JType ObjectType), example_classes)"
    by (simp add: join_def example_unrelated and_then_Inr
          join_ancestors_chain[OF example_chain_B] join_ancestors_chain[OF example_chain_C])
  with example_unrelated show ?thesis by simp
qed

text \<open>
  Claim C9. When \<^verbatim>\<open>canAssign\<close> returns false on two class references in both
  directions, \<^verbatim>\<open>join\<close> returns the Object type and leaves the registry as it was,
  whatever ancestors the two classes share: the walk from the second class, run on the
  list that the walk from the first class produced, returns that list extended, so the
  second list stays empty and the comparison loop, the only place that returns a raw
  registry entry, runs over no index.
\<close>

theorem join_unrelated_is_object:
  assumes "canAssign cs (ClassValueType an) (ClassValueType bn) = Some (Inr False, cs1)"
    and "canAssign cs (ClassValueType bn) (ClassValueType an) = Some (Inr False, cs2)"
  shows "join cs (ClassValueType an) (ClassValueType bn) = Some (Inr (JType ObjectType), cs)
       \<and> (\<exists>anc_a anc_b.
             join_ancestors cs an [] = Some (Inr anc_a, cs) \<and>
             join_ancestors cs bn anc_a = Some (Inr (anc_a @ anc_b), cs))"
proof -
  from canAssign_class_False[OF assms(1)] obtain anc_a where
    1: "cs1 = cs" and a: "\<And>acc. join_ancestors cs an acc = Some (Inr (acc @ anc_a), cs)"
    by blast
  from canAssign_class_False[OF assms(2)] obtain anc_b where
    2: "cs2 = cs" and b: "\<And>acc. join_ancestors cs bn acc = Some (Inr (acc @ anc_b), cs)"
    by blast
  have "join cs (ClassValueType an) (ClassValueType bn) = Some (Inr (JType ObjectType), cs)"
    using assms by (simp add: join_def 1 2 and_then_Inr a b)
  moreover have "join_ancestors cs an [] = Some (Inr anc_a, cs)"
    using a[of "[]"] by simp
  ultimately show ?thesis using b[of anc_a] by blast
qed

theorem join_unrelated_is_object_witness:
  "canAssign example_classes (ClassValueType ''C'') (ClassValueType ''B'') =
     Some (Inr False, example_classes)
   \<and> canAssign example_classes (ClassValueType ''B'') (ClassValueType ''C'') =
     Some (Inr False, example_classes)
   \<and> join example_classes (ClassValueType ''C'') (ClassValueType ''B'') =
     Some (Inr (JType ObjectType), example_classes)"
  using join_unrelated_is_object[OF example_unrelated(2) example_unrelated(1)] example_unrelated
  by simp

subsection \<open>Termination\<close>

lemma getOrderedAttrs_own_returns: "\<exists>out. getOrderedAttrs_own cs c = Some out"
  by (simp add: getOrderedAttrs_own_def split: prod.split option.split)

lemma getOrderedAttrs_returns:
  "superclass_chain cs n c = Some ch \<Longrightarrow> \<exists>out. getOrderedAttrs cs c = Some out"
proof (induction n arbitrary: c ch)
  case 0
  then obtain ci where "cs c = Some (Some ci)" "superclass ci = None" "ch = [(c, ci)]"
    by (blast dest: chain_0D)
  then show ?case
    using getOrderedAttrs_own_returns[of cs c]
    by (subst getOrderedAttrs.simps) (simp add: classes_getitem_Some)
next
  case (Suc n)
  then obtain ci sc ch' where h: "cs c = Some (Some ci)" "superclass ci = Some sc"
      "superclass_chain cs n sc = Some ch'" "ch = (c, ci) # ch'"
    by (blast dest: chain_SucD)
  from Suc.IH[OF h(3)] obtain r cs' where up: "getOrderedAttrs cs sc = Some (r, cs')"
    by fastforce
  show ?case
    using h up getOrderedAttrs_own_returns[of cs' c]
    by (subst getOrderedAttrs.simps) (simp add: classes_getitem_Some split: sum.split)
qed

lemma canAssign_returns:
  assumes "\<And>x. a = ClassValueType x \<Longrightarrow> \<exists>n ch. superclass_chain cs n x = Some ch"
  shows "\<exists>r. canAssign cs a b = Some (Inr r, cs)"
proof (cases "\<exists>x y. a = ClassValueType x \<and> b = ClassValueType y")
  case True
  then obtain x y where xy: "a = ClassValueType x" "b = ClassValueType y" by blast
  from assms[OF xy(1)] obtain n ch where "superclass_chain cs n x = Some ch" by blast
  from canAssign_chain[OF this, of y] xy show ?thesis by simp
next
  case False
  then have "\<exists>r. isSubtype cs a b = Some (Inr r, cs)"
    by (auto simp add: isSubtype_def split: ValueType.splits)
  then obtain r where "isSubtype cs a b = Some (Inr r, cs)" by blast
  then show ?thesis by (auto simp add: canAssign_def and_then_Inr)
qed

lemma join_returns:
  assumes a: "\<And>x. a = ClassValueType x \<Longrightarrow> \<exists>n ch. superclass_chain cs n x = Some ch"
    and b: "\<And>x. b = ClassValueType x \<Longrightarrow> \<exists>n ch. superclass_chain cs n x = Some ch"
  shows "\<exists>r. join cs a b = Some (r, cs)"
proof -
  from canAssign_returns[of a cs b, OF a] obtain r1 where
    r1: "canAssign cs a b = Some (Inr r1, cs)" by blast
  from canAssign_returns[of b cs a, OF b] obtain r2 where
    r2: "canAssign cs b a = Some (Inr r2, cs)" by blast
  show ?thesis
  proof (cases "r1 \<or> r2")
    case True
    with r1 r2 show ?thesis by (auto simp add: join_def and_then_Inr)
  next
    case False
    show ?thesis
    proof (cases "\<exists>x y. a = ClassValueType x \<and> b = ClassValueType y")
      case True
      then obtain x y where xy: "a = ClassValueType x" "b = ClassValueType y" by blast
      from a[OF xy(1)] obtain n ch where cx: "superclass_chain cs n x = Some ch" by blast
      from b[OF xy(2)] obtain k ch' where cy: "superclass_chain cs k y = Some ch'" by blast
      show ?thesis
        using False r1 r2 xy
        by (simp add: join_def and_then_Inr join_ancestors_chain[OF cx] join_ancestors_chain[OF cy])
    next
      case nc: False
      with False r1 r2 show ?thesis
        by (auto simp add: join_def and_then_Inr split: ValueType.splits)
    qed
  qed
qed

lemma wf_classes_chain:
  "wf_classes cs \<Longrightarrow> classExists cs c \<Longrightarrow> \<exists>n ch. superclass_chain cs n c = Some ch"
  by (auto simp add: wf_classes_def classExists_def dom_def)

lemma example_dom:
  "dom example_classes =
     {''C'', ''B'', ''A'', ''<Empty>'', ''<None>'', ''str'', ''bool'', ''int'', ''object''}"
  by (simp add: example_classes_def init_classes_def)

lemma example_wf: "wf_classes example_classes"
  unfolding wf_classes_def
proof
  fix c
  assume "c \<in> dom example_classes"
  then have "c \<in> {''C'', ''B'', ''A'', ''<Empty>'', ''<None>'', ''str'', ''bool'', ''int'', ''object''}"
    by (simp only: example_dom)
  then consider "c = ''object''" | "c = ''A''" | "c = ''B''" | "c = ''C''"
    | "c \<in> {''int'', ''bool'', ''str'', ''<None>'', ''<Empty>''}"
    by (elim insertE emptyE) (simp_all only: insertI1 insertI2)
  then show "\<exists>n ch. superclass_chain example_classes n c = Some ch"
  proof cases
    case 1
    with example_chain_object show ?thesis by blast
  next
    case 2
    with example_chain_A show ?thesis by blast
  next
    case 3
    with example_chain_B show ?thesis by blast
  next
    case 4
    with example_chain_C show ?thesis by blast
  next
    case 5
    then have "\<exists>ch. superclass_chain example_classes (Suc 0) c = Some ch"
      by (auto simp add: example_classes_def init_classes_def objectInfo_def intInfo_def
            boolInfo_def strInfo_def newClassInfo_def)
    then show ?thesis by blast
  qed
qed

text \<open>
  Claim C10. In a well-formed registry (every registered class has a chain that reaches
  \<^verbatim>\<open>object\<close> through registered records), every query on a registered class returns:
  \<^verbatim>\<open>isSubClass\<close>, \<^verbatim>\<open>getMethod\<close>, \<^verbatim>\<open>getAttr\<close>, \<^verbatim>\<open>getAttrOrMethod\<close>,
  \<^verbatim>\<open>getAllMethods\<close>, \<^verbatim>\<open>getOrderedAttrs\<close>, and \<^verbatim>\<open>join\<close> on value types whose class
  names are registered. The ancestor walk from a class whose chain takes \<open>n\<close> steps to
  the root collects exactly \<open>n\<close> names, one for each turn of its loop.
\<close>

theorem queries_terminate:
  assumes wf: "wf_classes cs"
    and c: "classExists cs c"
    and a: "\<forall>x. a = ClassValueType x \<longrightarrow> classExists cs x"
    and b: "\<forall>x. b = ClassValueType x \<longrightarrow> classExists cs x"
  shows "(\<exists>out. isSubClass cs c d = Some out)
       \<and> (\<exists>out. getMethod cs c m = Some out)
       \<and> (\<exists>out. getAttr cs c m = Some out)
       \<and> (\<exists>out. getAttrOrMethod cs c m = Some out)
       \<and> (\<exists>out. getAllMethods cs c = Some out)
       \<and> (\<exists>out. getOrderedAttrs cs c = Some out)
       \<and> (\<exists>out. join cs a b = Some out)
       \<and> (\<exists>n ch anc. superclass_chain cs n c = Some ch \<and>
             join_ancestors cs c [] = Some (Inr anc, cs) \<and> length anc = n)"
proof -
  from wf_classes_chain[OF wf c] obtain n ch where ch: "superclass_chain cs n c = Some ch"
    by blast
  have 1: "\<exists>out. isSubClass cs c d = Some out"
    using isSubClass_chain[OF ch, of d] by (simp add: isSubClass_def)
  have 2: "\<exists>out. getMethod cs c m = Some out"
    using getMethodHelper_chain[OF ch, of m] by (simp add: getMethod_def)
  have 3: "\<exists>out. getAttr cs c m = Some out"
    using getAttrHelper_chain[OF ch, of m] by (simp add: getAttr_def)
  have 4: "\<exists>out. getAttrOrMethod cs c m = Some out"
    using getAttrOrMethod_chain[OF ch, of m] by simp
  have 5: "\<exists>out. getAllMethods cs c = Some out"
    using getAllMethods_chain[OF ch] by simp
  have 6: "\<exists>out. getOrderedAttrs cs c = Some out"
    by (rule getOrderedAttrs_returns[OF ch])
  have "\<exists>r. join cs a b = Some (r, cs)"
  proof (rule join_returns)
    fix x assume "a = ClassValueType x"
    with a wf show "\<exists>n ch. superclass_chain cs n x = Some ch"
      by (blast intro: wf_classes_chain)
  next
    fix x assume "b = ClassValueType x"
    with b wf show "\<exists>n ch. superclass_chain cs n x = Some ch"
      by (blast intro: wf_classes_chain)
  qed
  then have 7: "\<exists>out. join cs a b = Some out" by blast
  have 8: "\<exists>n ch anc. superclass_chain cs n c = Some ch \<and>
             join_ancestors cs c [] = Some (Inr anc, cs) \<and> length anc = n"
    using ch join_ancestors_chain[OF ch, of "[]"] chain_length[OF ch] by auto
  from 1 2 3 4 5 6 7 8 show ?thesis by blast
qed

theorem queries_terminate_witness:
  "wf_classes example_classes
   \<and> classExists example_classes ''B''
   \<and> classExists example_classes ''C''
   \<and> (\<exists>out. isSubClass example_classes ''B'' ''C'' = Some out)
   \<and> (\<exists>out. getAllMethods example_classes ''B'' = Some out)
   \<and> (\<exists>out. getOrderedAttrs example_classes ''B'' = Some out)
   \<and> (\<exists>out. join example_classes (ClassValueType ''B'') (ClassValueType ''C'') = Some out)"
proof -
  have b: "classExists example_classes ''B''" and c: "classExists example_classes ''C''"
    by (simp_all add: classExists_def example_lookup)
  from b have tb: "\<forall>x. ClassValueType ''B'' = ClassValueType x \<longrightarrow> classExists example_classes x"
    by simp
  from c have tc: "\<forall>x. ClassValueType ''C'' = ClassValueType x \<longrightarrow> classExists example_classes x"
    by simp
  from queries_terminate[OF example_wf b tb tc, of "''C''"] example_wf b c
  show ?thesis by blast
qed

end
